theory Spec2Isabelle
  imports
    Complex_Main
    "HOL-Library.Char_ord"
    "HOL-Library.List_Lexorder"
    "HOL-Library.Multiset"
    "HOL-Library.Product_Lexorder"
begin

section \<open>Data model (app/models.py)\<close>

text \<open>
  A Python \<^verbatim>\<open>datetime\<close> is the tuple of its calendar fields. Values of the class satisfy
  \<open>1 \<le> year \<le> 9999\<close> and \<open>1 \<le> month \<le> 12\<close> (\<open>valid_datetime\<close> below); datetimes compare
  field by field, which is the lexicographic order of \<open>datetime_key\<close>.
\<close>

record datetime =
  year :: nat
  month :: nat
  day :: nat
  hour :: nat
  minute :: nat
  second :: nat
  microsecond :: nat

definition datetime_key :: "datetime \<Rightarrow> nat \<times> nat \<times> nat \<times> nat \<times> nat \<times> nat \<times> nat" where
  "datetime_key d = (year d, month d, day d, hour d, minute d, second d, microsecond d)"

definition valid_datetime :: "datetime \<Rightarrow> bool" where
  "valid_datetime d \<longleftrightarrow> 1 \<le> year d \<and> year d \<le> 9999 \<and> 1 \<le> month d \<and> month d \<le> 12"

text \<open>
  Rows of the tables \<^verbatim>\<open>links\<close> and \<^verbatim>\<open>clicks\<close>. The primary keys (\<^verbatim>\<open>Link.id\<close>,
  \<^verbatim>\<open>Click.id\<close>) are UUIDs, here natural numbers.
\<close>

record link =
  link_uuid :: nat
  short_code :: string
  target_url :: string
  created_at :: datetime

record click =
  click_uuid :: nat
  link_id :: nat
  clicked_at :: datetime

section \<open>The world: the two tables and the sources of fresh values\<close>

text \<open>
  The code reads three things from outside: \<^verbatim>\<open>random.choice\<close>, \<^verbatim>\<open>datetime.now\<close> and
  \<^verbatim>\<open>uuid.uuid4\<close>. The first two are streams of the environment, indexed by the number of
  calls made so far; \<^verbatim>\<open>uuid4\<close> is a supply of fresh identifiers (the call counter itself).
  Each table is the list of its rows in insertion order. The store is free in the order in
  which an \<^verbatim>\<open>ORDER BY\<close> returns rows with equal keys: \<open>tie_order\<close> is the arrangement of the
  rows it starts from, and the queries are read in an environment where it rearranges
  the rows without adding or losing any (\<open>keeps_rows\<close> below).
\<close>

record environment =
  random_source :: "nat \<Rightarrow> nat"
  utc_clock :: "nat \<Rightarrow> datetime"
  tie_order :: "link list \<Rightarrow> link list"

definition keeps_rows :: "environment \<Rightarrow> bool" where
  "keeps_rows env \<longleftrightarrow> (\<forall>ls. mset (tie_order env ls) = mset ls)"

record world =
  links_table :: "link list"
  clicks_table :: "click list"
  rand_calls :: nat
  now_calls :: nat
  uuid_calls :: nat

datatype error = IntegrityError | DataError | ValueError | RuntimeError string

definition uuid4 :: "world \<Rightarrow> nat \<times> world" where
  "uuid4 w = (uuid_calls w, w\<lparr>uuid_calls := Suc (uuid_calls w)\<rparr>)"

definition datetime_now :: "environment \<Rightarrow> world \<Rightarrow> datetime \<times> world" where
  "datetime_now env w = (utc_clock env (now_calls w), w\<lparr>now_calls := Suc (now_calls w)\<rparr>)"

section \<open>Short codes and the fraud check (app/utils.py)\<close>

definition ascii_lowercase :: string where
  "ascii_lowercase = ''abcdefghijklmnopqrstuvwxyz''"

definition digits :: string where
  "digits = ''0123456789''"

definition characters :: string where
  "characters = ascii_lowercase @ digits"

text \<open>\<^verbatim>\<open>random.choice(seq)\<close> is \<^verbatim>\<open>seq[randbelow(len(seq))]\<close>; the \<open>k\<close>-th draw is reduced
  modulo the length.\<close>

definition random_choice :: "environment \<Rightarrow> 'a list \<Rightarrow> nat \<Rightarrow> 'a" where
  "random_choice env seq k = seq ! (random_source env k mod length seq)"

definition generate_short_code :: "environment \<Rightarrow> nat \<Rightarrow> world \<Rightarrow> string \<times> world" where
  "generate_short_code env len w =
     (map (\<lambda>i. random_choice env characters (rand_calls w + i)) [0..<len],
      w\<lparr>rand_calls := rand_calls w + len\<rparr>)"

text \<open>The fraud check sleeps and answers \<^verbatim>\<open>True\<close>; the delay is not part of the model.\<close>

definition simulate_fraud_check :: bool where
  "simulate_fraud_check = True"

section \<open>The store's constraints\<close>

text \<open>
  \<^verbatim>\<open>db.add(link); db.commit()\<close> inserts the row under the constraints of the schema:
  \<^verbatim>\<open>short_code\<close> is a \<^verbatim>\<open>String(6)\<close>, \<^verbatim>\<open>short_code\<close> and \<^verbatim>\<open>target_url\<close> are unique.
  A violated uniqueness constraint is SQLAlchemy's \<^verbatim>\<open>IntegrityError\<close>, and the store then
  holds what it held before. \<^verbatim>\<open>clicks.link_id\<close> is a foreign key into \<^verbatim>\<open>links.id\<close>.
\<close>

definition commit_link :: "world \<Rightarrow> link \<Rightarrow> error + world" where
  "commit_link w l =
     (if length (short_code l) > 6 then Inl DataError
      else if short_code l \<in> set (map short_code (links_table w))
            \<or> target_url l \<in> set (map target_url (links_table w)) then Inl IntegrityError
      else Inr (w\<lparr>links_table := links_table w @ [l]\<rparr>))"

definition commit_click :: "world \<Rightarrow> click \<Rightarrow> error + world" where
  "commit_click w c =
     (if link_id c \<notin> set (map link_uuid (links_table w)) then Inl IntegrityError
      else Inr (w\<lparr>clicks_table := clicks_table w @ [c]\<rparr>))"

section \<open>Floating point (the earnings)\<close>

text \<open>
  A Python \<^verbatim>\<open>float\<close> is a binary64 number; a finite one is the rational it denotes.
  \<open>binary64\<close> rounds a rational to the nearest number with a 53-bit significand, ties to
  even (the exponent range is not bounded: the values here are click counts times 0.05).
  \<^verbatim>\<open>round(x, ndigits)\<close> rounds the exact value of \<open>x\<close> to \<open>ndigits\<close> decimals, ties to even,
  and returns the nearest float of that decimal.
\<close>

type_synonym float = rat

fun bit_length :: "nat \<Rightarrow> nat" where
  "bit_length n = (if n = 0 then 0 else Suc (bit_length (n div 2)))"

declare bit_length.simps [simp del]

definition pow2 :: "int \<Rightarrow> rat" where
  "pow2 e = (if 0 \<le> e then 2 ^ nat e else 1 / 2 ^ nat (- e))"

definition floor_log2 :: "rat \<Rightarrow> int" where
  "floor_log2 x =
     (if 1 \<le> x then int (bit_length (nat \<lfloor>x\<rfloor>)) - 1
      else - int (bit_length (nat (\<lceil>1 / x\<rceil> - 1))))"

definition round_half_even :: "rat \<Rightarrow> int" where
  "round_half_even x =
     (let f = \<lfloor>x\<rfloor>; d = x - of_int f
      in if d < 1 / 2 then f else if 1 / 2 < d then f + 1 else if even f then f else f + 1)"

definition binary64 :: "rat \<Rightarrow> float" where
  "binary64 x =
     (if x = 0 then 0
      else let e = floor_log2 \<bar>x\<bar> - 52
           in of_int (round_half_even (x / pow2 e)) * pow2 e)"

definition float_of_int :: "int \<Rightarrow> float" where
  "float_of_int n = binary64 (of_int n)"

definition float_mul :: "float \<Rightarrow> float \<Rightarrow> float" where
  "float_mul a b = binary64 (a * b)"

definition py_round :: "float \<Rightarrow> nat \<Rightarrow> float" where
  "py_round x ndigits = binary64 (of_int (round_half_even (x * 10 ^ ndigits)) / 10 ^ ndigits)"

section \<open>Business logic (app/services.py)\<close>

definition EARNINGS_PER_CLICK :: float where
  "EARNINGS_PER_CLICK = binary64 (5 / 100)"

definition max_attempts :: nat where
  "max_attempts = 10"

text \<open>
  The retry loop of \<^verbatim>\<open>create_link\<close>, by the number of attempts left. An attempt draws a
  code, builds the row (the column defaults \<^verbatim>\<open>uuid4\<close> and \<^verbatim>\<open>datetime.now\<close> are taken at the
  insert) and commits; after an \<^verbatim>\<open>IntegrityError\<close> the rollback leaves the tables as they
  were and the loop goes on. Any other error of the commit is not caught.
\<close>

fun create_link_attempts ::
  "environment \<Rightarrow> nat \<Rightarrow> world \<Rightarrow> string \<Rightarrow> (error + link \<times> bool) \<times> world" where
  "create_link_attempts env 0 w url =
     (Inl (RuntimeError ''Failed to generate unique short code after multiple attempts''), w)"
| "create_link_attempts env (Suc n) w url =
     (let (code, w1) = generate_short_code env 6 w;
          (uid, w2) = uuid4 w1;
          (now, w3) = datetime_now env w2;
          link = \<lparr>link_uuid = uid, short_code = code, target_url = url, created_at = now\<rparr>
      in case commit_link w3 link of
           Inr w4 \<Rightarrow> (Inr (link, True), w4)
         | Inl IntegrityError \<Rightarrow> create_link_attempts env n w3 url
         | Inl e \<Rightarrow> (Inl e, w3))"

definition create_link ::
  "environment \<Rightarrow> world \<Rightarrow> string \<Rightarrow> (error + link \<times> bool) \<times> world" where
  "create_link env w url =
     (case find (\<lambda>l. target_url l = url) (links_table w) of
        Some existing \<Rightarrow> (Inr (existing, False), w)
      | None \<Rightarrow> create_link_attempts env max_attempts w url)"

definition record_click :: "environment \<Rightarrow> world \<Rightarrow> nat \<Rightarrow> (error + click) \<times> world" where
  "record_click env w lid =
     (let (uid, w1) = uuid4 w;
          (now, w2) = datetime_now env w1;
          c = \<lparr>click_uuid = uid, link_id = lid, clicked_at = now\<rparr>
      in case commit_click w2 c of
           Inr w3 \<Rightarrow> (Inr c, w3)
         | Inl e \<Rightarrow> (Inl e, w2))"

text \<open>
  The lookup binds the code as a parameter of the query. A string with a NUL character
  cannot be sent to PostgreSQL: the driver raises \<^verbatim>\<open>ValueError\<close> and no query runs. The
  store holds no text with a NUL character, so this happens only for a code that matches
  no row.
\<close>

definition get_link_by_short_code :: "world \<Rightarrow> string \<Rightarrow> error + link option" where
  "get_link_by_short_code w code =
     (case find (\<lambda>l. short_code l = code) (links_table w) of
        Some link \<Rightarrow> Inr (Some link)
      | None \<Rightarrow> if CHR 0x00 \<in> set code then Inl ValueError else Inr None)"

subsection \<open>The queries of get_stats\<close>

text \<open>
  \<^verbatim>\<open>order_by(Link.created_at.desc())\<close>: the rows by descending \<^verbatim>\<open>created_at\<close>; rows with
  equal timestamps come in the order the store's \<open>tie_order\<close> leaves them in (a stable sort
  of its arrangement, reversed).
  \<^verbatim>\<open>.offset(o).limit(n)\<close>: PostgreSQL, the store the code is written for (\<^verbatim>\<open>to_char\<close>, the
  \<^verbatim>\<open>postgresql\<close> dialect's UUID), rejects a negative \<^verbatim>\<open>OFFSET\<close> or \<^verbatim>\<open>LIMIT\<close>, and one that
  does not fit its 64-bit integers.
\<close>

definition order_by_created_at_desc :: "environment \<Rightarrow> link list \<Rightarrow> link list" where
  "order_by_created_at_desc env ls =
     rev (sort_key (\<lambda>l. datetime_key (created_at l)) (tie_order env ls))"

definition bigint_max :: int where
  "bigint_max = 9223372036854775807"

definition offset_limit :: "int \<Rightarrow> int \<Rightarrow> 'a list \<Rightarrow> error + 'a list" where
  "offset_limit ofs cnt rows =
     (if ofs < 0 \<or> cnt < 0 \<or> bigint_max < ofs \<or> bigint_max < cnt then Inl DataError
      else Inr (take (nat cnt) (drop (nat ofs) rows)))"

text \<open>\<^verbatim>\<open>to_char(clicked_at, 'YYYY-MM')\<close>: the year on at least four digits, the month on two.\<close>

fun decimal :: "nat \<Rightarrow> string" where
  "decimal n = (if n < 10 then [digits ! n] else decimal (n div 10) @ [digits ! (n mod 10)])"

declare decimal.simps [simp del]

definition zero_padded :: "nat \<Rightarrow> nat \<Rightarrow> string" where
  "zero_padded width n = replicate (width - length (decimal n)) (CHR ''0'') @ decimal n"

definition to_char_YYYY_MM :: "datetime \<Rightarrow> string" where
  "to_char_YYYY_MM d = zero_padded 4 (year d) @ ''-'' @ zero_padded 2 (month d)"

definition clicks_of :: "world \<Rightarrow> nat \<Rightarrow> click list" where
  "clicks_of w lid = filter (\<lambda>c. link_id c = lid) (clicks_table w)"

text \<open>The grouped query: one row \<open>(month, clicks)\<close> per month string, ordered by it.\<close>

definition monthly_data :: "world \<Rightarrow> nat \<Rightarrow> (string \<times> nat) list" where
  "monthly_data w lid =
     (let months = map (\<lambda>c. to_char_YYYY_MM (clicked_at c)) (clicks_of w lid)
      in map (\<lambda>m. (m, count_list months m)) (sort (remdups months)))"

record link_stats =
  stats_short_code :: string
  stats_target_url :: string
  total_clicks :: nat
  total_earnings :: float
  monthly_breakdown :: "(string \<times> nat) list"

record stats_result =
  page :: int
  limit :: int
  total_links :: nat
  links :: "link_stats list"

definition stats_of_link :: "world \<Rightarrow> link \<Rightarrow> link_stats" where
  "stats_of_link w l =
     (let n = length (clicks_of w (link_uuid l))
      in \<lparr>stats_short_code = short_code l,
          stats_target_url = target_url l,
          total_clicks = n,
          total_earnings = py_round (float_mul (float_of_int (int n)) EARNINGS_PER_CLICK) 2,
          monthly_breakdown = monthly_data w (link_uuid l)\<rparr>)"

definition get_stats :: "environment \<Rightarrow> world \<Rightarrow> int \<Rightarrow> int \<Rightarrow> error + stats_result" where
  "get_stats env w page0 limit0 =
     (let page1 = (if page0 < 1 then 1 else page0);
          limit1 = (if limit0 > 100 then 100 else limit0);
          offset = (page1 - 1) * limit1;
          total = length (links_table w)
      in case offset_limit offset limit1 (order_by_created_at_desc env (links_table w)) of
           Inl e \<Rightarrow> Inl e
         | Inr rows \<Rightarrow>
             Inr \<lparr>page = page1, limit = limit1, total_links = total,
                  links = map (stats_of_link w) rows\<rparr>)"

definition default_page :: int where
  "default_page = 1"

definition default_limit :: int where
  "default_limit = 20"

section \<open>The endpoints (app/main.py)\<close>

datatype response =
    LinkResponse nat link
  | StatsResponse stats_result
  | RedirectResponse string nat
  | HTTPException nat string
  | InternalServerError error

definition post_link :: "environment \<Rightarrow> world \<Rightarrow> string \<Rightarrow> response \<times> world" where
  "post_link env w url =
     (case create_link env w url of
        (Inl e, w') \<Rightarrow> (InternalServerError e, w')
      | (Inr (link, is_new), w') \<Rightarrow> (LinkResponse (if is_new then 201 else 200) link, w'))"

definition get_global_stats :: "environment \<Rightarrow> world \<Rightarrow> int \<Rightarrow> int \<Rightarrow> response" where
  "get_global_stats env w p l =
     (if p < 1 \<or> l < 1 \<or> 100 < l then HTTPException 422 ''validation error''
      else case get_stats env w p l of
             Inl e \<Rightarrow> InternalServerError e
           | Inr r \<Rightarrow> StatsResponse r)"

definition redirect_short_link :: "environment \<Rightarrow> world \<Rightarrow> string \<Rightarrow> response \<times> world" where
  "redirect_short_link env w code =
     (case get_link_by_short_code w code of
        Inl e \<Rightarrow> (InternalServerError e, w)
      | Inr None \<Rightarrow> (HTTPException 404 ''Short link not found'', w)
      | Inr (Some link) \<Rightarrow>
          if \<not> simulate_fraud_check then (HTTPException 403 ''Click failed fraud validation'', w)
          else (case record_click env w (link_uuid link) of
                  (Inl e, w') \<Rightarrow> (InternalServerError e, w')
                | (Inr c, w') \<Rightarrow> (RedirectResponse (target_url link) 302, w')))"

text \<open>
  A run of the service: requests handled one after the other. \<open>PostLink\<close> carries the
  \<^verbatim>\<open>target_url\<close> of a body that passed the validation of \<^verbatim>\<open>LinkCreate\<close> (a request that
  fails it is answered 422 before \<^verbatim>\<open>post_link\<close> runs, and changes nothing); an exception
  that no handler catches is answered as an internal server error.
\<close>

datatype request = PostLink string | GetStats int int | GetShortCode string

fun handle :: "environment \<Rightarrow> world \<Rightarrow> request \<Rightarrow> response \<times> world" where
  "handle env w (PostLink url) = post_link env w url"
| "handle env w (GetStats p l) = (get_global_stats env w p l, w)"
| "handle env w (GetShortCode code) = redirect_short_link env w code"

fun serve :: "environment \<Rightarrow> world \<Rightarrow> request list \<Rightarrow> world" where
  "serve env w [] = w"
| "serve env w (r # rs) = serve env (snd (handle env w r)) rs"

definition empty_world :: world where
  "empty_world = \<lparr>links_table = [], clicks_table = [], rand_calls = 0, now_calls = 0, uuid_calls = 0\<rparr>"

section \<open>Notions used in the statements\<close>

text \<open>
  The code drawn by the \<open>k\<close>-th attempt of the retry loop started in \<open>w\<close> (attempts count
  from 0 and each draws six characters), the row that attempt inserts, and the world after
  \<open>k\<close> attempts that left the tables alone.
\<close>

definition nth_code :: "environment \<Rightarrow> world \<Rightarrow> nat \<Rightarrow> string" where
  "nth_code env w k = fst (generate_short_code env 6 (w\<lparr>rand_calls := rand_calls w + 6 * k\<rparr>))"

definition nth_link :: "environment \<Rightarrow> world \<Rightarrow> string \<Rightarrow> nat \<Rightarrow> link" where
  "nth_link env w url k = \<lparr>link_uuid = uuid_calls w + k, short_code = nth_code env w k,
     target_url = url, created_at = utc_clock env (now_calls w + k)\<rparr>"

definition after_attempts :: "world \<Rightarrow> nat \<Rightarrow> world" where
  "after_attempts w k = w\<lparr>rand_calls := rand_calls w + 6 * k, uuid_calls := uuid_calls w + k,
     now_calls := now_calls w + k\<rparr>"

text \<open>
  A well-formed short code: six characters of \<open>[a-z0-9]\<close>. The invariant of the links table:
  every stored code is well formed and no two rows share a code.
\<close>

definition well_formed_code :: "string \<Rightarrow> bool" where
  "well_formed_code s \<longleftrightarrow> length s = 6 \<and> set s \<subseteq> set ''abcdefghijklmnopqrstuvwxyz0123456789''"

definition store_invariant :: "world \<Rightarrow> bool" where
  "store_invariant w \<longleftrightarrow>
     (\<forall>l \<in> set (links_table w). well_formed_code (short_code l))
     \<and> distinct (map short_code (links_table w))"

text \<open>
  The format \<open>YYYY-MM\<close>: four digits, a hyphen, two digits. \<open>undecimal\<close> reads a string of
  digits back as a number.
\<close>

definition is_digit :: "char \<Rightarrow> bool" where
  "is_digit c \<longleftrightarrow> c \<in> set ''0123456789''"

definition matches_YYYY_MM :: "string \<Rightarrow> bool" where
  "matches_YYYY_MM s \<longleftrightarrow>
     length s = 7 \<and> list_all is_digit (take 4 s) \<and> s ! 4 = CHR ''-'' \<and> list_all is_digit (drop 5 s)"

definition digit_value :: "char \<Rightarrow> nat" where
  "digit_value c = of_char c - 48"

definition undecimal :: "string \<Rightarrow> nat" where
  "undecimal s = foldl (\<lambda>a c. 10 * a + digit_value c) 0 s"

section \<open>Sample values\<close>

text \<open>
  A clock that advances one month per reading, a random source that counts, one that
  always draws the first character, and a store holding one link.
\<close>

definition sample_clock :: "nat \<Rightarrow> datetime" where
  "sample_clock k = \<lparr>year = 2024, month = 1 + k mod 12, day = 1, hour = 0, minute = 0,
     second = 0, microsecond = k\<rparr>"

definition sample_env :: environment where
  "sample_env = \<lparr>random_source = (\<lambda>k. k), utc_clock = sample_clock, tie_order = (\<lambda>ls. ls)\<rparr>"

definition stuck_env :: environment where
  "stuck_env = \<lparr>random_source = (\<lambda>k. 0), utc_clock = sample_clock, tie_order = (\<lambda>ls. ls)\<rparr>"

definition sample_link :: link where
  "sample_link = \<lparr>link_uuid = 0, short_code = ''abcdef'',
     target_url = ''https://fiverr.com/a/svc1'', created_at = sample_clock 0\<rparr>"

definition sample_world :: world where
  "sample_world = \<lparr>links_table = [sample_link], clicks_table = [],
     rand_calls = 6, now_calls = 1, uuid_calls = 1\<rparr>"

definition stuck_world :: world where
  "stuck_world = \<lparr>links_table = [\<lparr>link_uuid = 0, short_code = ''aaaaaa'',
        target_url = ''https://fiverr.com/a/svc1'', created_at = sample_clock 0\<rparr>],
     clicks_table = [], rand_calls = 6, now_calls = 1, uuid_calls = 1\<rparr>"

definition sample_requests :: "request list" where
  "sample_requests = [PostLink ''https://fiverr.com/a/svc1'', PostLink ''https://fiverr.com/b/svc2'',
     GetShortCode ''abcdef'', PostLink ''https://fiverr.com/a/svc1'']"

definition five_posts :: "request list" where
  "five_posts = [PostLink ''https://fiverr.com/p0/svc'', PostLink ''https://fiverr.com/p1/svc'',
     PostLink ''https://fiverr.com/p2/svc'', PostLink ''https://fiverr.com/p3/svc'',
     PostLink ''https://fiverr.com/p4/svc'']"

definition five_links_world :: world where
  "five_links_world = serve sample_env empty_world five_posts"

text \<open>A clock that stays two readings in each month, and stores with clicks.\<close>

definition slow_clock :: "nat \<Rightarrow> datetime" where
  "slow_clock k = \<lparr>year = 2024, month = 1 + (k div 2) mod 12, day = 1, hour = 0, minute = 0,
     second = 0, microsecond = k\<rparr>"

definition slow_env :: environment where
  "slow_env = \<lparr>random_source = (\<lambda>k. k), utc_clock = slow_clock, tie_order = (\<lambda>ls. ls)\<rparr>"

definition three_clicks_world :: world where
  "three_clicks_world = serve slow_env sample_world (replicate 3 (GetShortCode ''abcdef''))"

definition ten_clicks_world :: world where
  "ten_clicks_world = serve sample_env sample_world (replicate 10 (GetShortCode ''abcdef''))"

section \<open>Lookups\<close>

lemma find_unique:
  "l \<in> set xs \<Longrightarrow> distinct (map f xs) \<Longrightarrow> find (\<lambda>x. f x = f l) xs = Some l"
  by (induction xs) (auto simp: image_iff)

lemma find_absent: "k \<notin> set (map f xs) \<Longrightarrow> find (\<lambda>x. f x = k) xs = None"
  by (auto simp: find_None_iff)

lemma find_snoc:
  "find P (xs @ [x]) = (case find P xs of None \<Rightarrow> (if P x then Some x else None) | Some y \<Rightarrow> Some y)"
  by (induction xs) auto

section \<open>Redirects\<close>

lemma lookup_absent:
  assumes "code \<notin> set (map short_code (links_table w))"
  shows "get_link_by_short_code w code = (if CHR 0x00 \<in> set code then Inl ValueError else Inr None)"
  using find_absent [OF assms] by (simp add: get_link_by_short_code_def)

lemma lookup_stored:
  assumes "l \<in> set (links_table w)" and "distinct (map short_code (links_table w))"
  shows "get_link_by_short_code w (short_code l) = Inr (Some l)"
proof -
  have "find (\<lambda>x. short_code x = short_code l) (links_table w) = Some l"
    using assms by (rule find_unique)
  then show ?thesis by (simp add: get_link_by_short_code_def)
qed

lemma redirect_stored:
  assumes "l \<in> set (links_table w)" and "distinct (map short_code (links_table w))"
  shows "redirect_short_link env w (short_code l) =
        (RedirectResponse (target_url l) 302,
         w\<lparr>clicks_table := clicks_table w @
               [\<lparr>click_uuid = uuid_calls w, link_id = link_uuid l,
                 clicked_at = utc_clock env (now_calls w)\<rparr>],
           now_calls := Suc (now_calls w), uuid_calls := Suc (uuid_calls w)\<rparr>)"
proof -
  have "link_uuid l \<in> set (map link_uuid (links_table w))"
    using assms(1) by simp
  with lookup_stored [OF assms] show ?thesis
    by (simp add: redirect_short_link_def simulate_fraud_check_def record_click_def uuid4_def
        datetime_now_def commit_click_def Let_def)
qed

text \<open>
  C8, as the code has it. A redirect request for a short code that no stored link carries
  and that has no NUL character answers 404 (not found); and for every short code that no
  stored link carries the request leaves the whole world, the clicks table included, as
  it was: no click is recorded.
\<close>

theorem redirect_unknown_code:
  assumes "code \<notin> set (map short_code (links_table w))"
  shows "(CHR 0x00 \<notin> set code \<longrightarrow>
            redirect_short_link env w code = (HTTPException 404 ''Short link not found'', w))
         \<and> snd (redirect_short_link env w code) = w"
  using lookup_absent [OF assms] by (simp add: redirect_short_link_def)

theorem redirect_unknown_code_witness:
  "''zzzzzz'' \<notin> set (map short_code (links_table sample_world))
   \<and> CHR 0x00 \<notin> set ''zzzzzz''
   \<and> redirect_short_link sample_env sample_world ''zzzzzz''
       = (HTTPException 404 ''Short link not found'', sample_world)"
  using redirect_unknown_code [of "''zzzzzz''" sample_world sample_env]
  by (simp add: sample_world_def sample_link_def)

text \<open>
  The claim as first stated, not-found for every short code absent from the store, fails:
  the code \<open>abc\<close>, NUL, \<open>ef\<close> is carried by no stored link, the lookup raises
  \<^verbatim>\<open>ValueError\<close>, which the handler does not catch, and the answer is an internal server
  error, not 404.
\<close>

theorem redirect_unknown_code_counterexample:
  "''abc'' @ [CHR 0x00] @ ''ef'' \<notin> set (map short_code (links_table sample_world))
   \<and> redirect_short_link sample_env sample_world (''abc'' @ [CHR 0x00] @ ''ef'')
       = (InternalServerError ValueError, sample_world)
   \<and> redirect_short_link sample_env sample_world (''abc'' @ [CHR 0x00] @ ''ef'')
       \<noteq> (HTTPException 404 ''Short link not found'', sample_world)"
  by (simp add: redirect_short_link_def get_link_by_short_code_def sample_world_def
      sample_link_def)

text \<open>
  C7. For a stored link (short codes being unique in the store), a redirect request with
  its short code passes the fraud check, appends exactly one click that references the
  link, so that the link's click count grows by exactly one while the links table and
  every other link's clicks stay as they were, and answers 302 with the stored target URL.
\<close>

theorem redirect_known_code:
  assumes "l \<in> set (links_table w)" and "distinct (map short_code (links_table w))"
  shows "simulate_fraud_check
    \<and> redirect_short_link env w (short_code l) =
        (RedirectResponse (target_url l) 302,
         w\<lparr>clicks_table := clicks_table w @
               [\<lparr>click_uuid = uuid_calls w, link_id = link_uuid l,
                 clicked_at = utc_clock env (now_calls w)\<rparr>],
           now_calls := Suc (now_calls w), uuid_calls := Suc (uuid_calls w)\<rparr>)
    \<and> length (clicks_of (snd (redirect_short_link env w (short_code l))) (link_uuid l))
        = Suc (length (clicks_of w (link_uuid l)))
    \<and> (\<forall>other. other \<noteq> link_uuid l \<longrightarrow>
          clicks_of (snd (redirect_short_link env w (short_code l))) other = clicks_of w other)"
  unfolding redirect_stored [OF assms] by (simp add: simulate_fraud_check_def clicks_of_def)

theorem redirect_known_code_witness:
  "sample_link \<in> set (links_table sample_world)
   \<and> distinct (map short_code (links_table sample_world))
   \<and> redirect_short_link sample_env sample_world ''abcdef'' =
       (RedirectResponse ''https://fiverr.com/a/svc1'' 302,
        sample_world\<lparr>clicks_table :=
            [\<lparr>click_uuid = 1, link_id = 0, clicked_at = sample_clock 1\<rparr>],
          now_calls := 2, uuid_calls := 2\<rparr>)"
  using redirect_known_code [of sample_link sample_world sample_env]
  by (simp add: sample_world_def sample_link_def sample_env_def)

section \<open>Creating links\<close>

lemma length_generate_short_code [simp]: "length (fst (generate_short_code env n w)) = n"
  by (simp add: generate_short_code_def)

lemma after_attempts_0 [simp]: "after_attempts w 0 = w"
  by (simp add: after_attempts_def)

lemma nth_code_shift: "nth_code env (after_attempts w (Suc 0)) k = nth_code env w (Suc k)"
  by (simp add: nth_code_def after_attempts_def generate_short_code_def algebra_simps)

lemma nth_link_shift: "nth_link env (after_attempts w (Suc 0)) url k = nth_link env w url (Suc k)"
  by (simp add: nth_link_def nth_code_shift) (simp add: after_attempts_def)

lemma after_attempts_shift: "after_attempts (after_attempts w (Suc 0)) k = after_attempts w (Suc k)"
  by (simp add: after_attempts_def)

lemma tables_after_attempts [simp]:
  "links_table (after_attempts w k) = links_table w"
  "clicks_table (after_attempts w k) = clicks_table w"
  by (simp_all add: after_attempts_def)

text \<open>One pass of the loop body: the insert collides, or it goes through.\<close>

lemma attempt_collides:
  assumes "nth_code env w 0 \<in> set (map short_code (links_table w))
           \<or> url \<in> set (map target_url (links_table w))"
  shows "create_link_attempts env (Suc n) w url = create_link_attempts env n (after_attempts w (Suc 0)) url"
  using assms
  by (simp add: Let_def generate_short_code_def uuid4_def datetime_now_def commit_link_def
      nth_code_def after_attempts_def split: prod.splits)

lemma attempt_succeeds:
  assumes "nth_code env w 0 \<notin> set (map short_code (links_table w))"
    and "url \<notin> set (map target_url (links_table w))"
  shows "create_link_attempts env (Suc n) w url =
           (Inr (nth_link env w url 0, True),
            (after_attempts w (Suc 0))\<lparr>links_table := links_table w @ [nth_link env w url 0]\<rparr>)"
  using assms
  by (simp add: Let_def generate_short_code_def uuid4_def datetime_now_def commit_link_def
      nth_code_def nth_link_def after_attempts_def split: prod.splits)

lemma attempts_all_collide:
  assumes "\<forall>k<n. nth_code env w k \<in> set (map short_code (links_table w))"
  shows "create_link_attempts env n w url =
           (Inl (RuntimeError ''Failed to generate unique short code after multiple attempts''),
            after_attempts w n)"
  using assms
proof (induction n arbitrary: w)
  case 0
  then show ?case by simp
next
  case (Suc n)
  have "nth_code env w 0 \<in> set (map short_code (links_table w))"
    using Suc.prems by blast
  then have "create_link_attempts env (Suc n) w url
               = create_link_attempts env n (after_attempts w (Suc 0)) url"
    using attempt_collides by blast
  moreover have "\<forall>k<n. nth_code env (after_attempts w (Suc 0)) k
                   \<in> set (map short_code (links_table (after_attempts w (Suc 0))))"
    using Suc.prems by (simp add: nth_code_shift)
  ultimately show ?case
    using Suc.IH [of "after_attempts w (Suc 0)"] by (simp add: after_attempts_shift)
qed

lemma attempts_first_free:
  assumes "k < n"
    and "\<forall>j<k. nth_code env w j \<in> set (map short_code (links_table w))"
    and "nth_code env w k \<notin> set (map short_code (links_table w))"
    and "url \<notin> set (map target_url (links_table w))"
  shows "create_link_attempts env n w url =
           (Inr (nth_link env w url k, True),
            (after_attempts w (Suc k))\<lparr>links_table := links_table w @ [nth_link env w url k]\<rparr>)"
  using assms
proof (induction k arbitrary: w n)
  case 0
  then obtain m where "n = Suc m" by (cases n) auto
  then show ?case using 0 attempt_succeeds by simp
next
  case (Suc k)
  then obtain m where n: "n = Suc m" and km: "k < m" by (cases n) auto
  have c0: "nth_code env w 0 \<in> set (map short_code (links_table w))"
    using Suc.prems(2) by blast
  have step: "create_link_attempts env n w url = create_link_attempts env m (after_attempts w (Suc 0)) url"
    unfolding n using c0 attempt_collides by blast
  have "create_link_attempts env m (after_attempts w (Suc 0)) url =
           (Inr (nth_link env (after_attempts w (Suc 0)) url k, True),
            (after_attempts (after_attempts w (Suc 0)) (Suc k))
              \<lparr>links_table := links_table (after_attempts w (Suc 0)) @ [nth_link env (after_attempts w (Suc 0)) url k]\<rparr>)"
  proof (rule Suc.IH [OF km])
    show "\<forall>j<k. nth_code env (after_attempts w (Suc 0)) j
            \<in> set (map short_code (links_table (after_attempts w (Suc 0))))"
      using Suc.prems(2) by (simp add: nth_code_shift)
    show "nth_code env (after_attempts w (Suc 0)) k
            \<notin> set (map short_code (links_table (after_attempts w (Suc 0))))"
      using Suc.prems(3) by (simp add: nth_code_shift)
    show "url \<notin> set (map target_url (links_table (after_attempts w (Suc 0))))"
      using Suc.prems(4) by simp
  qed
  then show ?case
    unfolding step by (simp add: nth_link_shift after_attempts_shift)
qed


lemma attempts_result:
  assumes "create_link_attempts env n w url = (Inr (l, b), w')"
    and "url \<notin> set (map target_url (links_table w))"
  shows "b \<and> target_url l = url \<and> links_table w' = links_table w @ [l]
         \<and> clicks_table w' = clicks_table w"
  using assms
proof (induction n arbitrary: w)
  case 0
  then show ?case by simp
next
  case (Suc n)
  show ?case
  proof (cases "nth_code env w 0 \<in> set (map short_code (links_table w))")
    case True
    then have "create_link_attempts env (Suc n) w url
                 = create_link_attempts env n (after_attempts w (Suc 0)) url"
      using attempt_collides by blast
    with Suc.prems(1) have "create_link_attempts env n (after_attempts w (Suc 0)) url = (Inr (l, b), w')"
      by simp
    from Suc.IH [OF this] Suc.prems(2) show ?thesis by simp
  next
    case False
    from attempt_succeeds [OF False Suc.prems(2), of n] Suc.prems(1)
    show ?thesis by (auto simp: nth_link_def)
  qed
qed

text \<open>
  C1. Idempotent creation: whenever \<open>create_link\<close> returns a link for a URL, calling it
  again with the same URL in the world it left returns that same link (hence the same
  short code) with \<open>is_new = False\<close> and leaves the world, the links table included, exactly
  as it was: no new record is created. The link returned carries the URL and is stored.
\<close>

theorem create_link_idempotent:
  assumes "create_link env w url = (Inr (l, is_new), w1)"
  shows "create_link env w1 url = (Inr (l, False), w1) \<and> target_url l = url
         \<and> l \<in> set (links_table w1)"
proof (cases "find (\<lambda>l. target_url l = url) (links_table w)")
  case (Some existing)
  with assms have same: "w1 = w" "l = existing"
    by (simp_all add: create_link_def)
  have "target_url existing = url \<and> existing \<in> set (links_table w)"
    using Some by (auto simp: find_Some_iff)
  moreover have "create_link env w url = (Inr (existing, False), w)"
    using Some by (simp add: create_link_def)
  ultimately show ?thesis
    unfolding same by simp
next
  case None
  then have fresh: "url \<notin> set (map target_url (links_table w))"
    by (auto simp: find_None_iff)
  from assms None have "create_link_attempts env max_attempts w url = (Inr (l, is_new), w1)"
    by (simp add: create_link_def)
  from attempts_result [OF this fresh]
  have "target_url l = url" and "links_table w1 = links_table w @ [l]" by simp_all
  with None show ?thesis
    by (simp add: create_link_def find_snoc)
qed

theorem create_link_idempotent_witness:
  "create_link sample_env empty_world ''https://fiverr.com/a/svc1'' = (Inr (sample_link, True), sample_world)
   \<and> create_link sample_env sample_world ''https://fiverr.com/a/svc1'' = (Inr (sample_link, False), sample_world)"
proof -
  have first: "create_link sample_env empty_world ''https://fiverr.com/a/svc1'' = (Inr (sample_link, True), sample_world)"
    by code_simp
  from create_link_idempotent [OF first] first show ?thesis by simp
qed

text \<open>
  C3. Bounded retry with surfaced failure. When no link exists for the URL:
  if each of the ten codes drawn is already taken, \<open>create_link\<close> raises the RuntimeError
  after exactly ten attempts, and the tables are as before (only the counters of the
  sources have advanced); if attempt \<open>k < 10\<close> is the first whose freshly drawn code is
  free, the attempts before it have left no trace and the link of attempt \<open>k\<close> is the one
  inserted and returned with \<open>is_new = True\<close>; in every case at most ten inserts are tried.
\<close>

theorem create_link_bounded_retry:
  assumes "find (\<lambda>l. target_url l = url) (links_table w) = None"
  shows "((\<forall>k<10. nth_code env w k \<in> set (map short_code (links_table w))) \<longrightarrow>
            create_link env w url =
              (Inl (RuntimeError ''Failed to generate unique short code after multiple attempts''),
               w\<lparr>rand_calls := rand_calls w + 60, uuid_calls := uuid_calls w + 10,
                 now_calls := now_calls w + 10\<rparr>))
       \<and> (\<forall>k<10. (\<forall>j<k. nth_code env w j \<in> set (map short_code (links_table w)))
                 \<and> nth_code env w k \<notin> set (map short_code (links_table w)) \<longrightarrow>
            create_link env w url =
              (Inr (nth_link env w url k, True),
               w\<lparr>links_table := links_table w @ [nth_link env w url k],
                 rand_calls := rand_calls w + 6 * Suc k, uuid_calls := uuid_calls w + Suc k,
                 now_calls := now_calls w + Suc k\<rparr>))
       \<and> uuid_calls (snd (create_link env w url)) \<le> uuid_calls w + 10"
proof -
  have fresh: "url \<notin> set (map target_url (links_table w))"
    using assms by (auto simp: find_None_iff)
  have loop: "create_link env w url = create_link_attempts env 10 w url"
    using assms by (simp add: create_link_def max_attempts_def)
  have fail: "create_link env w url =
              (Inl (RuntimeError ''Failed to generate unique short code after multiple attempts''),
               w\<lparr>rand_calls := rand_calls w + 60, uuid_calls := uuid_calls w + 10,
                 now_calls := now_calls w + 10\<rparr>)"
    if "\<forall>k<10. nth_code env w k \<in> set (map short_code (links_table w))"
    unfolding loop using attempts_all_collide [OF that] by (simp add: after_attempts_def)
  have ok: "create_link env w url =
              (Inr (nth_link env w url k, True),
               w\<lparr>links_table := links_table w @ [nth_link env w url k],
                 rand_calls := rand_calls w + 6 * Suc k, uuid_calls := uuid_calls w + Suc k,
                 now_calls := now_calls w + Suc k\<rparr>)"
    if "k < 10" "\<forall>j<k. nth_code env w j \<in> set (map short_code (links_table w))"
       "nth_code env w k \<notin> set (map short_code (links_table w))" for k
    unfolding loop using attempts_first_free [OF that fresh] by (simp add: after_attempts_def)
  have bound: "uuid_calls (snd (create_link env w url)) \<le> uuid_calls w + 10"
  proof (cases "\<forall>k<10. nth_code env w k \<in> set (map short_code (links_table w))")
    case True
    from fail [OF this] show ?thesis by simp
  next
    case False
    then have ex: "\<exists>k. k < 10 \<and> nth_code env w k \<notin> set (map short_code (links_table w))"
      by blast
    define k where "k = (LEAST k. k < 10 \<and> nth_code env w k \<notin> set (map short_code (links_table w)))"
    have k: "k < 10 \<and> nth_code env w k \<notin> set (map short_code (links_table w))"
      unfolding k_def using ex by (rule LeastI_ex)
    have "\<forall>j<k. nth_code env w j \<in> set (map short_code (links_table w))"
    proof (intro allI impI)
      fix j assume "j < k"
      then have "\<not> (j < 10 \<and> nth_code env w j \<notin> set (map short_code (links_table w)))"
        unfolding k_def by (rule not_less_Least)
      moreover have "j < 10" using \<open>j < k\<close> k by simp
      ultimately show "nth_code env w j \<in> set (map short_code (links_table w))" by blast
    qed
    from ok [OF _ this] k show ?thesis by simp
  qed
  from fail ok bound show ?thesis by blast
qed

theorem create_link_bounded_retry_witness:
  "find (\<lambda>l. target_url l = ''https://fiverr.com/b/svc2'') (links_table stuck_world) = None
   \<and> nth_code stuck_env stuck_world 0 = ''aaaaaa'' \<and> nth_code stuck_env stuck_world 9 = ''aaaaaa''
   \<and> map short_code (links_table stuck_world) = [''aaaaaa'']
   \<and> create_link stuck_env stuck_world ''https://fiverr.com/b/svc2'' =
        (Inl (RuntimeError ''Failed to generate unique short code after multiple attempts''),
         stuck_world\<lparr>rand_calls := 66, uuid_calls := 11, now_calls := 11\<rparr>)"
proof -
  have u: "find (\<lambda>l. target_url l = ''https://fiverr.com/b/svc2'') (links_table stuck_world) = None"
    by (simp add: stuck_world_def)
  have c: "nth_code stuck_env stuck_world k = ''aaaaaa''" for k
    by (simp add: nth_code_def generate_short_code_def random_choice_def stuck_env_def
        characters_def ascii_lowercase_def upt_conv_Cons)
  have all: "\<forall>k<10. nth_code stuck_env stuck_world k \<in> set (map short_code (links_table stuck_world))"
    unfolding c by (simp add: stuck_world_def)
  from create_link_bounded_retry [OF u, of stuck_env] all u c show ?thesis
    by (simp add: stuck_world_def)
qed

section \<open>Short codes\<close>

lemma length_characters: "length characters = 36"
  by (simp add: characters_def ascii_lowercase_def digits_def)

lemma random_choice_characters: "random_choice env characters k \<in> set characters"
  unfolding random_choice_def by (rule nth_mem) (simp add: length_characters)

lemma well_formed_generate: "well_formed_code (fst (generate_short_code env 6 w))"
proof -
  have "set (fst (generate_short_code env 6 w)) \<subseteq> set characters"
    using random_choice_characters by (auto simp: generate_short_code_def)
  then show ?thesis
    by (simp add: well_formed_code_def characters_def ascii_lowercase_def digits_def)
qed

lemma well_formed_nth_code: "well_formed_code (nth_code env w k)"
  unfolding nth_code_def by (rule well_formed_generate)

lemma store_invariant_after_attempts [simp]:
  "store_invariant (after_attempts w k) = store_invariant w"
  by (simp add: store_invariant_def)

lemma store_invariant_attempts:
  "store_invariant w \<Longrightarrow> store_invariant (snd (create_link_attempts env n w url))"
proof (induction n arbitrary: w)
  case 0
  then show ?case by simp
next
  case (Suc n)
  show ?case
  proof (cases "nth_code env w 0 \<in> set (map short_code (links_table w))
                \<or> url \<in> set (map target_url (links_table w))")
    case True
    then have "create_link_attempts env (Suc n) w url
                 = create_link_attempts env n (after_attempts w (Suc 0)) url"
      by (rule attempt_collides)
    then show ?thesis using Suc.IH [of "after_attempts w (Suc 0)"] Suc.prems by simp
  next
    case False
    then have "create_link_attempts env (Suc n) w url =
           (Inr (nth_link env w url 0, True),
            (after_attempts w (Suc 0))\<lparr>links_table := links_table w @ [nth_link env w url 0]\<rparr>)"
      using attempt_succeeds by blast
    then show ?thesis
      using Suc.prems False well_formed_nth_code [of env w 0]
      by (simp add: store_invariant_def nth_link_def)
  qed
qed

lemma store_invariant_create_link:
  "store_invariant w \<Longrightarrow> store_invariant (snd (create_link env w url))"
  by (simp add: create_link_def store_invariant_attempts split: option.splits)

lemma links_table_record_click:
  "links_table (snd (record_click env w lid)) = links_table w"
  by (simp add: record_click_def uuid4_def datetime_now_def commit_click_def Let_def)

lemma links_table_redirect:
  "links_table (snd (redirect_short_link env w code)) = links_table w"
proof (cases "get_link_by_short_code w code")
  case (Inl e)
  then show ?thesis by (simp add: redirect_short_link_def)
next
  case (Inr found)
  show ?thesis
  proof (cases found)
    case None
    with Inr show ?thesis by (simp add: redirect_short_link_def)
  next
    case (Some link)
    with Inr links_table_record_click [of env w "link_uuid link"] show ?thesis
      by (simp add: redirect_short_link_def split: prod.splits sum.splits) (metis snd_conv)
  qed
qed

lemma store_invariant_handle:
  "store_invariant w \<Longrightarrow> store_invariant (snd (handle env w r))"
proof (cases r)
  case (PostLink url)
  assume "store_invariant w"
  then have "store_invariant (snd (create_link env w url))"
    by (rule store_invariant_create_link)
  then show ?thesis
    using PostLink by (auto simp: post_link_def split: prod.splits sum.splits)
next
  case (GetStats p l)
  assume "store_invariant w"
  then show ?thesis using GetStats by simp
next
  case (GetShortCode code)
  assume "store_invariant w"
  then show ?thesis
    using GetShortCode links_table_redirect [of env w code] by (simp add: store_invariant_def)
qed

lemma store_invariant_serve:
  "store_invariant w \<Longrightarrow> store_invariant (serve env w rs)"
  by (induction rs arbitrary: w) (simp_all add: store_invariant_handle)

lemma store_invariant_empty: "store_invariant empty_world"
  by (simp add: store_invariant_def empty_world_def)

text \<open>
  C2. After any sequence of requests served from the empty store, and from any store that
  satisfies the invariant, every stored link's short code has exactly six characters, all
  of \<open>[a-z0-9]\<close>, and no two stored links share a short code; hence two stored links with
  distinct target URLs carry distinct codes.
\<close>

theorem short_codes_invariant:
  "store_invariant (serve env empty_world rs)
   \<and> (store_invariant w \<longrightarrow> store_invariant (serve env w rs))
   \<and> (\<forall>l1 \<in> set (links_table (serve env empty_world rs)).
       \<forall>l2 \<in> set (links_table (serve env empty_world rs)).
         target_url l1 \<noteq> target_url l2 \<longrightarrow> short_code l1 \<noteq> short_code l2)"
proof -
  have inv: "store_invariant (serve env empty_world rs)"
    using store_invariant_empty by (rule store_invariant_serve)
  then have "inj_on short_code (set (links_table (serve env empty_world rs)))"
    by (simp add: store_invariant_def distinct_map)
  then have "\<forall>l1 \<in> set (links_table (serve env empty_world rs)).
       \<forall>l2 \<in> set (links_table (serve env empty_world rs)).
         target_url l1 \<noteq> target_url l2 \<longrightarrow> short_code l1 \<noteq> short_code l2"
    by (auto dest: inj_onD)
  with inv store_invariant_serve show ?thesis by blast
qed

theorem short_codes_invariant_witness:
  "map short_code (links_table (serve sample_env empty_world sample_requests)) = [''abcdef'', ''ghijkl'']
   \<and> store_invariant (serve sample_env empty_world sample_requests)"
proof -
  have "map short_code (links_table (serve sample_env empty_world sample_requests)) = [''abcdef'', ''ghijkl'']"
    by code_simp
  with short_codes_invariant [of sample_env sample_requests empty_world] show ?thesis by blast
qed

section \<open>Statistics: paging\<close>

lemma offset_limit_ok:
  assumes "0 \<le> a" "a \<le> bigint_max" "0 \<le> b" "b \<le> bigint_max"
  shows "offset_limit a b rows = Inr (take (nat b) (drop (nat a) rows))"
  using assms by (simp add: offset_limit_def)

lemma clamp_equations:
  "(if p < 1 then 1 else p) = max 1 (p::int)" "(if l > 100 then 100 else l) = min (l::int) 100"
  by simp_all

lemma get_stats_unfold:
  "get_stats env w p l =
     (case offset_limit ((max 1 p - 1) * min l 100) (min l 100)
             (order_by_created_at_desc env (links_table w)) of
        Inl e \<Rightarrow> Inl e
      | Inr rows \<Rightarrow>
          Inr \<lparr>page = max 1 p, limit = min l 100, total_links = length (links_table w),
               links = map (stats_of_link w) rows\<rparr>)"
  by (simp only: get_stats_def Let_def clamp_equations)

lemma get_stats_in_range:
  assumes "0 \<le> l" and "(max 1 p - 1) * min l 100 \<le> bigint_max"
  shows "get_stats env w p l =
     Inr \<lparr>page = max 1 p, limit = min l 100, total_links = length (links_table w),
          links = map (stats_of_link w)
            (take (nat (min l 100))
               (drop (nat ((max 1 p - 1) * min l 100))
                  (order_by_created_at_desc env (links_table w))))\<rparr>"
proof -
  have a: "0 \<le> (max 1 p - 1) * min l 100"
    using assms(1) by (intro mult_nonneg_nonneg) simp_all
  have b: "0 \<le> min l 100"
    using assms(1) by simp
  have c: "min l 100 \<le> bigint_max"
    by (simp add: bigint_max_def min_le_iff_disj)
  show ?thesis
    by (simp only: get_stats_unfold offset_limit_ok [OF a assms(2) b c] sum.case)
qed

lemma get_stats_rejected:
  assumes "l < 0 \<or> bigint_max < (max 1 p - 1) * min l 100"
  shows "get_stats env w p l = Inl DataError"
proof -
  have "offset_limit ((max 1 p - 1) * min l 100) (min l 100) rows = Inl DataError" for rows :: "link list"
    using assms by (auto simp: offset_limit_def)
  then show ?thesis
    by (simp only: get_stats_unfold sum.case)
qed

lemma get_stats_result:
  assumes "get_stats env w p l = Inr r"
  shows "r = \<lparr>page = max 1 p, limit = min l 100, total_links = length (links_table w),
          links = map (stats_of_link w)
            (take (nat (min l 100))
               (drop (nat ((max 1 p - 1) * min l 100))
                  (order_by_created_at_desc env (links_table w))))\<rparr>"
proof (cases "0 \<le> l \<and> (max 1 p - 1) * min l 100 \<le> bigint_max")
  case True
  then have "get_stats env w p l =
     Inr \<lparr>page = max 1 p, limit = min l 100, total_links = length (links_table w),
          links = map (stats_of_link w)
            (take (nat (min l 100))
               (drop (nat ((max 1 p - 1) * min l 100))
                  (order_by_created_at_desc env (links_table w))))\<rparr>"
    using get_stats_in_range by blast
  with assms show ?thesis by simp
next
  case False
  then have "get_stats env w p l = Inl DataError"
    by (intro get_stats_rejected) auto
  with assms show ?thesis by simp
qed

lemma mset_order_by:
  "keeps_rows env \<Longrightarrow> mset (order_by_created_at_desc env ls) = mset ls"
  by (simp add: order_by_created_at_desc_def keeps_rows_def)

lemma length_order_by:
  "keeps_rows env \<Longrightarrow> length (order_by_created_at_desc env ls) = length ls"
  using mset_order_by [of env ls] by (metis size_mset)

lemma set_order_by:
  "keeps_rows env \<Longrightarrow> set (order_by_created_at_desc env ls) = set ls"
  using mset_order_by [of env ls] by (metis set_mset_mset)

lemma sorted_order_by:
  "sorted_wrt (\<lambda>a b. datetime_key (created_at b) \<le> datetime_key (created_at a))
     (order_by_created_at_desc env ls)"
proof -
  have "sorted (map (\<lambda>l. datetime_key (created_at l))
          (sort_key (\<lambda>l. datetime_key (created_at l)) (tie_order env ls)))"
    by (rule sorted_sort_key)
  then show ?thesis
    by (simp add: order_by_created_at_desc_def sorted_wrt_rev sorted_wrt_map)
qed

lemma keeps_rows_sample_env: "keeps_rows sample_env"
  by (simp add: keeps_rows_def sample_env_def)

lemma page_of_stored_links:
  assumes "get_stats env w p l = Inr r" and "s \<in> set (links r)" and "keeps_rows env"
  shows "\<exists>lk \<in> set (links_table w). s = stats_of_link w lk"
proof -
  from get_stats_result [OF assms(1)] assms(2)
  obtain lk where lk: "lk \<in> set (take (nat (min l 100))
               (drop (nat ((max 1 p - 1) * min l 100))
                  (order_by_created_at_desc env (links_table w))))"
    and s: "s = stats_of_link w lk"
    by auto
  from lk have "lk \<in> set (order_by_created_at_desc env (links_table w))"
    by (meson in_set_dropD in_set_takeD)
  with assms(3) have "lk \<in> set (links_table w)"
    by (simp add: set_order_by)
  with s show ?thesis by blast
qed

text \<open>
  C4, as the code has it. For a limit that is not negative and an offset
  \<open>(page - 1) * limit\<close> (of the clamped values) within the store's 64-bit range, \<open>get_stats\<close>
  answers with the clamped page and limit, \<open>total_links\<close> the number of all links whatever
  the page, and as links the statistics of the window of the links ordered by \<open>created_at\<close>
  descending (a sorted rearrangement of the table) that skips the offset and takes at most
  \<open>limit\<close> rows. With five links and limit 2, pages 1 and 2 hold two links, page 3 holds
  one, and \<open>total_links\<close> is 5 on each. On the empty store the defaults give page 1,
  limit 20, no links, total 0.
\<close>

theorem get_stats_pagination:
  "(0 \<le> l \<longrightarrow> (max 1 p - 1) * min l 100 \<le> bigint_max \<longrightarrow>
      get_stats env w p l =
        Inr \<lparr>page = max 1 p, limit = min l 100, total_links = length (links_table w),
             links = map (stats_of_link w)
               (take (nat (min l 100))
                  (drop (nat ((max 1 p - 1) * min l 100))
                     (order_by_created_at_desc env (links_table w))))\<rparr>)
   \<and> sorted_wrt (\<lambda>a b. datetime_key (created_at b) \<le> datetime_key (created_at a))
        (order_by_created_at_desc env (links_table w))
   \<and> (keeps_rows env \<longrightarrow>
        mset (order_by_created_at_desc env (links_table w)) = mset (links_table w))
   \<and> (keeps_rows env \<longrightarrow> length (links_table w) = 5 \<longrightarrow>
        (\<exists>r1 r2 r3. get_stats env w 1 2 = Inr r1 \<and> get_stats env w 2 2 = Inr r2
           \<and> get_stats env w 3 2 = Inr r3
           \<and> length (links r1) = 2 \<and> length (links r2) = 2 \<and> length (links r3) = 1
           \<and> total_links r1 = 5 \<and> total_links r2 = 5 \<and> total_links r3 = 5))
   \<and> (keeps_rows env \<longrightarrow>
        get_stats env empty_world default_page default_limit
          = Inr \<lparr>page = 1, limit = 20, total_links = 0, links = []\<rparr>)"
proof -
  have five: "\<exists>r1 r2 r3. get_stats env w 1 2 = Inr r1 \<and> get_stats env w 2 2 = Inr r2
           \<and> get_stats env w 3 2 = Inr r3
           \<and> length (links r1) = 2 \<and> length (links r2) = 2 \<and> length (links r3) = 1
           \<and> total_links r1 = 5 \<and> total_links r2 = 5 \<and> total_links r3 = 5"
    if "keeps_rows env" "length (links_table w) = 5"
    using that by (simp add: get_stats_in_range bigint_max_def length_order_by)
  have empty: "get_stats env empty_world default_page default_limit
        = Inr \<lparr>page = 1, limit = 20, total_links = 0, links = []\<rparr>"
    if "keeps_rows env"
  proof -
    have "length (order_by_created_at_desc env (links_table empty_world)) = 0"
      using that by (simp add: length_order_by empty_world_def)
    then show ?thesis
      by (simp add: get_stats_in_range bigint_max_def default_page_def default_limit_def)
         (simp add: empty_world_def)
  qed
  from get_stats_in_range sorted_order_by mset_order_by five empty show ?thesis
    by blast
qed

lemma length_five_links_world: "length (links_table five_links_world) = 5"
  by code_simp

lemma last_page_five_links_world: "map (stats_of_link five_links_world)
        (take 2 (drop 4 (order_by_created_at_desc sample_env (links_table five_links_world))))
       = [\<lparr>stats_short_code = ''abcdef'', stats_target_url = ''https://fiverr.com/p0/svc'',
           total_clicks = 0, total_earnings = 0, monthly_breakdown = []\<rparr>]"
  by code_simp

theorem get_stats_pagination_witness:
  "(0::int) \<le> 2 \<and> (max 1 3 - 1) * min 2 100 \<le> bigint_max \<and> keeps_rows sample_env
   \<and> length (links_table five_links_world) = 5
   \<and> get_stats sample_env five_links_world 3 2 =
       Inr \<lparr>page = 3, limit = 2, total_links = 5,
            links = [\<lparr>stats_short_code = ''abcdef'', stats_target_url = ''https://fiverr.com/p0/svc'',
                      total_clicks = 0, total_earnings = 0, monthly_breakdown = []\<rparr>]\<rparr>"
  using get_stats_pagination [of 2 3 sample_env five_links_world] length_five_links_world
    last_page_five_links_world keeps_rows_sample_env
  by (simp add: bigint_max_def)

text \<open>
  The claim as first stated, the window for every clamped page and limit, fails below the
  documented range: with limit \<open>-1\<close> (which the clamp leaves alone) the store rejects the
  query and \<open>get_stats\<close> raises instead of returning a window.
\<close>

theorem get_stats_pagination_counterexample:
  "get_stats sample_env five_links_world 1 (- 1) = Inl DataError"
  by (rule get_stats_rejected) simp

text \<open>
  C9. \<open>get_stats\<close> called with any page and limit behaves as called with the page raised to
  at least 1 and the limit lowered to at most 100: the offset and the window are computed
  from the clamped values, and a result carries them in its page and limit fields (there
  is a result when the limit is not negative and the offset is within the store's range).
  The defaults are page 1 and limit 20.
\<close>

theorem get_stats_clamping:
  "get_stats env w p l = get_stats env w (max 1 p) (min l 100)
   \<and> (\<forall>r. get_stats env w p l = Inr r \<longrightarrow>
         page r = max 1 p \<and> limit r = min l 100
         \<and> links r = map (stats_of_link w)
             (take (nat (min l 100))
                (drop (nat ((max 1 p - 1) * min l 100))
                   (order_by_created_at_desc env (links_table w)))))
   \<and> (0 \<le> l \<longrightarrow> (max 1 p - 1) * min l 100 \<le> bigint_max \<longrightarrow>
        (\<exists>r. get_stats env w p l = Inr r))
   \<and> default_page = 1 \<and> default_limit = 20"
proof -
  have same: "get_stats env w p l = get_stats env w (max 1 p) (min l 100)"
    by (simp add: get_stats_def Let_def max_def min_def)
  have fields: "page r = max 1 p \<and> limit r = min l 100
         \<and> links r = map (stats_of_link w)
             (take (nat (min l 100))
                (drop (nat ((max 1 p - 1) * min l 100))
                   (order_by_created_at_desc env (links_table w))))"
    if "get_stats env w p l = Inr r" for r
    using get_stats_result [OF that] by simp
  have ex: "\<exists>r. get_stats env w p l = Inr r"
    if "0 \<le> l" "(max 1 p - 1) * min l 100 \<le> bigint_max"
    using get_stats_in_range [OF that] by blast
  from same fields ex show ?thesis
    by (simp add: default_page_def default_limit_def)
qed

theorem get_stats_clamping_witness:
  "get_stats sample_env five_links_world 0 200 = get_stats sample_env five_links_world 1 100
   \<and> (\<exists>r. get_stats sample_env five_links_world 0 200 = Inr r \<and> page r = 1 \<and> limit r = 100)"
proof -
  note c = get_stats_clamping [of sample_env five_links_world 0 200]
  have z: "(0::int) \<le> 200" "(max 1 0 - 1) * min 200 100 \<le> bigint_max"
    by (simp_all add: bigint_max_def)
  from c have "get_stats sample_env five_links_world 0 200
                 = get_stats sample_env five_links_world (max 1 0) (min 200 100)"
    by blast
  then have same: "get_stats sample_env five_links_world 0 200
                     = get_stats sample_env five_links_world 1 100"
    by simp
  from c z obtain r where r: "get_stats sample_env five_links_world 0 200 = Inr r"
    by blast
  with c have "page r = max 1 0 \<and> limit r = min 200 100"
    by blast
  then have "page r = 1 \<and> limit r = 100"
    by simp
  with same r show ?thesis by blast
qed

text \<open>
  C10. The limit is clamped from above only. With limit 0, for any page, \<open>get_stats\<close>
  returns no links and a result whose limit is 0, while \<open>total_links\<close> is still the number
  of all links; and whenever a limit of at most 100 yields a result, the result carries
  that limit unchanged.
\<close>

theorem get_stats_limit_zero:
  "get_stats env w p 0 =
     Inr \<lparr>page = max 1 p, limit = 0, total_links = length (links_table w), links = []\<rparr>
   \<and> (\<forall>l r. l \<le> 100 \<longrightarrow> get_stats env w p l = Inr r \<longrightarrow> limit r = l)"
proof -
  have "limit r = l" if "l \<le> 100" "get_stats env w p l = Inr r" for l r
    using get_stats_result [OF that(2)] that(1) by simp
  moreover have "get_stats env w p 0 =
     Inr \<lparr>page = max 1 p, limit = 0, total_links = length (links_table w), links = []\<rparr>"
    using get_stats_in_range [of 0 p env w] by (simp add: bigint_max_def)
  ultimately show ?thesis by blast
qed

theorem get_stats_limit_zero_witness:
  "length (links_table five_links_world) = 5
   \<and> get_stats sample_env five_links_world 7 0
       = Inr \<lparr>page = 7, limit = 0, total_links = 5, links = []\<rparr>"
  using get_stats_limit_zero [of sample_env five_links_world 7] length_five_links_world by simp

section \<open>Statistics: monthly breakdown and earnings\<close>

subsection \<open>Month strings\<close>

lemma digit_cases:
  assumes "k < (10::nat)"
  shows "k = 0 \<or> k = 1 \<or> k = 2 \<or> k = 3 \<or> k = 4 \<or> k = 5 \<or> k = 6 \<or> k = 7 \<or> k = 8 \<or> k = 9"
  using assms by arith

lemma is_digit_nth: "k < 10 \<Longrightarrow> is_digit (digits ! k)"
  using digit_cases [of k] by (auto simp: is_digit_def digits_def)

lemma digit_value_nth: "k < 10 \<Longrightarrow> digit_value (digits ! k) = k"
  using digit_cases [of k] by (auto simp: digit_value_def digits_def)

lemma all_digits_decimal: "list_all is_digit (decimal n)"
proof (induction n rule: decimal.induct)
  case (1 n)
  show ?case
  proof (cases "n < 10")
    case True
    then show ?thesis by (simp add: decimal.simps [of n] is_digit_nth)
  next
    case False
    with "1" show ?thesis by (simp add: decimal.simps [of n] is_digit_nth)
  qed
qed

lemma undecimal_snoc: "undecimal (s @ [c]) = 10 * undecimal s + digit_value c"
  by (simp add: undecimal_def)

lemma undecimal_decimal: "undecimal (decimal n) = n"
proof (induction n rule: decimal.induct)
  case (1 n)
  show ?case
  proof (cases "n < 10")
    case True
    then show ?thesis by (simp add: decimal.simps [of n] undecimal_def digit_value_nth)
  next
    case False
    with "1" show ?thesis
      by (simp add: decimal.simps [of n] undecimal_snoc digit_value_nth)
  qed
qed

lemma undecimal_zeros: "undecimal (replicate k (CHR ''0'') @ s) = undecimal s"
proof -
  have "foldl (\<lambda>a c. 10 * a + digit_value c) 0 (replicate k (CHR ''0'')) = 0"
    by (induction k) (simp_all add: digit_value_def)
  then show ?thesis by (simp add: undecimal_def)
qed

lemma undecimal_zero_padded: "undecimal (zero_padded width n) = n"
  by (simp add: zero_padded_def undecimal_zeros undecimal_decimal)

lemma length_decimal: "n < 10 ^ Suc k \<Longrightarrow> length (decimal n) \<le> Suc k"
proof (induction k arbitrary: n)
  case 0
  then show ?case by (simp add: decimal.simps [of n])
next
  case (Suc k)
  show ?case
  proof (cases "n < 10")
    case True
    then show ?thesis by (simp add: decimal.simps [of n])
  next
    case False
    have "n div 10 < 10 ^ Suc k"
      using Suc.prems by (simp add: less_mult_imp_div_less mult.commute)
    from Suc.IH [OF this] False show ?thesis
      by (simp add: decimal.simps [of n])
  qed
qed

lemma length_zero_padded:
  "length (decimal n) \<le> width \<Longrightarrow> length (zero_padded width n) = width"
  by (simp add: zero_padded_def)

lemma all_digits_zero_padded: "list_all is_digit (zero_padded width n)"
proof -
  have "is_digit (CHR ''0'')"
    by (simp add: is_digit_def)
  then have "list_all is_digit (replicate (width - length (decimal n)) (CHR ''0''))"
    by (simp add: list_all_iff)
  with all_digits_decimal [of n] show ?thesis
    by (simp add: zero_padded_def)
qed

lemma year_month_lengths:
  assumes "valid_datetime d"
  shows "length (zero_padded 4 (year d)) = 4" "length (zero_padded 2 (month d)) = 2"
proof -
  have "year d < 10 ^ Suc 3" "month d < 10 ^ Suc 1"
    using assms by (simp_all add: valid_datetime_def)
  then have "length (decimal (year d)) \<le> 4" "length (decimal (month d)) \<le> 2"
    using length_decimal [of "year d" 3] length_decimal [of "month d" 1] by simp_all
  then show "length (zero_padded 4 (year d)) = 4" "length (zero_padded 2 (month d)) = 2"
    by (simp_all add: length_zero_padded)
qed

lemma to_char_matches:
  assumes "valid_datetime d"
  shows "matches_YYYY_MM (to_char_YYYY_MM d)"
  using year_month_lengths [OF assms] all_digits_zero_padded [of 4 "year d"]
    all_digits_zero_padded [of 2 "month d"]
  by (simp add: matches_YYYY_MM_def to_char_YYYY_MM_def nth_append)

lemma to_char_year_month:
  assumes "valid_datetime d"
  shows "undecimal (take 4 (to_char_YYYY_MM d)) = year d"
    "undecimal (drop 5 (to_char_YYYY_MM d)) = month d"
  using year_month_lengths [OF assms]
  by (simp_all add: to_char_YYYY_MM_def undecimal_zero_padded)

lemma to_char_eq_iff:
  assumes "valid_datetime d1" "valid_datetime d2"
  shows "to_char_YYYY_MM d1 = to_char_YYYY_MM d2 \<longleftrightarrow> year d1 = year d2 \<and> month d1 = month d2"
proof
  assume "to_char_YYYY_MM d1 = to_char_YYYY_MM d2"
  with to_char_year_month [OF assms(1)] to_char_year_month [OF assms(2)]
  show "year d1 = year d2 \<and> month d1 = month d2" by simp
next
  assume "year d1 = year d2 \<and> month d1 = month d2"
  then show "to_char_YYYY_MM d1 = to_char_YYYY_MM d2"
    by (simp add: to_char_YYYY_MM_def)
qed


subsection \<open>The grouped query\<close>

lemma count_list_map_filter:
  "count_list (map f xs) m = length (filter (\<lambda>x. f x = m) xs)"
  by (induction xs) auto

lemma months_of_monthly_data:
  "map fst (monthly_data w lid)
     = sort (remdups (map (\<lambda>c. to_char_YYYY_MM (clicked_at c)) (clicks_of w lid)))"
  by (simp add: monthly_data_def Let_def comp_def)

lemma entry_of_monthly_data:
  assumes "(m, n) \<in> set (monthly_data w lid)"
  shows "n = length (filter (\<lambda>c. to_char_YYYY_MM (clicked_at c) = m) (clicks_of w lid))"
    and "\<exists>c \<in> set (clicks_of w lid). m = to_char_YYYY_MM (clicked_at c)"
  using assms by (auto simp: monthly_data_def Let_def count_list_map_filter)

lemma sum_monthly_data:
  "sum_list (map snd (monthly_data w lid)) = length (clicks_of w lid)"
proof -
  define ms where "ms = map (\<lambda>c. to_char_YYYY_MM (clicked_at c)) (clicks_of w lid)"
  have "sum_list (map snd (monthly_data w lid)) = sum_list (map (count_list ms) (sort (remdups ms)))"
    by (simp add: monthly_data_def Let_def comp_def ms_def)
  also have "\<dots> = sum (count_list ms) (set (sort (remdups ms)))"
    by (rule sum_list_distinct_conv_sum_set) simp
  also have "\<dots> = sum (count_list ms) (set ms)"
    by simp
  also have "\<dots> = length ms"
    by (rule sum_count_set) simp_all
  finally show ?thesis by (simp add: ms_def)
qed

lemma stats_of_link_fields:
  "stats_short_code (stats_of_link w lk) = short_code lk"
  "stats_target_url (stats_of_link w lk) = target_url lk"
  "total_clicks (stats_of_link w lk) = length (clicks_of w (link_uuid lk))"
  "total_earnings (stats_of_link w lk)
     = py_round (float_mul (float_of_int (int (length (clicks_of w (link_uuid lk)))))
         EARNINGS_PER_CLICK) 2"
  "monthly_breakdown (stats_of_link w lk) = monthly_data w (link_uuid lk)"
  by (simp_all add: stats_of_link_def Let_def)

text \<open>
  C5. For every link of a \<open>get_stats\<close> result (the clicks' timestamps being datetimes), the
  entry is the statistics of a stored link, and its monthly breakdown groups that link's
  clicks by the \<open>YYYY-MM\<close> string of \<open>clicked_at\<close>: the months listed are exactly those of the
  link's clicks, each entry counts the link's clicks of its month, two clicks fall in the
  same group exactly when their year and month agree, every month string has the format
  \<open>YYYY-MM\<close>, the counts sum to \<open>total_clicks\<close>, and the entries are in strictly ascending
  order of the month string.
\<close>

theorem monthly_breakdown_correct:
  assumes "get_stats env w p l = Inr r" and "s \<in> set (links r)" and "keeps_rows env"
    and "\<forall>c \<in> set (clicks_table w). valid_datetime (clicked_at c)"
  shows "\<exists>lk \<in> set (links_table w).
           s = stats_of_link w lk
         \<and> set (map fst (monthly_breakdown s))
             = (\<lambda>c. to_char_YYYY_MM (clicked_at c)) ` set (clicks_of w (link_uuid lk))
         \<and> (\<forall>(m, n) \<in> set (monthly_breakdown s).
               n = length (filter (\<lambda>c. to_char_YYYY_MM (clicked_at c) = m)
                           (clicks_of w (link_uuid lk)))
               \<and> matches_YYYY_MM m)
         \<and> (\<forall>c1 \<in> set (clicks_of w (link_uuid lk)). \<forall>c2 \<in> set (clicks_of w (link_uuid lk)).
               to_char_YYYY_MM (clicked_at c1) = to_char_YYYY_MM (clicked_at c2)
               \<longleftrightarrow> year (clicked_at c1) = year (clicked_at c2)
                   \<and> month (clicked_at c1) = month (clicked_at c2))
         \<and> sum_list (map snd (monthly_breakdown s)) = total_clicks s
         \<and> sorted (map fst (monthly_breakdown s))
         \<and> distinct (map fst (monthly_breakdown s))"
proof -
  from page_of_stored_links [OF assms(1-3)]
  obtain lk where lk: "lk \<in> set (links_table w)" and s: "s = stats_of_link w lk"
    by blast
  have valid: "valid_datetime (clicked_at c)" if "c \<in> set (clicks_of w (link_uuid lk))" for c
    using that assms(4) by (simp add: clicks_of_def)
  have months: "set (map fst (monthly_breakdown s))
             = (\<lambda>c. to_char_YYYY_MM (clicked_at c)) ` set (clicks_of w (link_uuid lk))"
    by (simp add: s stats_of_link_fields months_of_monthly_data del: set_map)
       (simp add: image_image)
  have entries: "n = length (filter (\<lambda>c. to_char_YYYY_MM (clicked_at c) = m)
                           (clicks_of w (link_uuid lk)))
               \<and> matches_YYYY_MM m"
    if "(m, n) \<in> set (monthly_breakdown s)" for m n
  proof -
    from that have mem: "(m, n) \<in> set (monthly_data w (link_uuid lk))"
      by (simp add: s stats_of_link_fields)
    from entry_of_monthly_data(2) [OF mem] valid have "matches_YYYY_MM m"
      by (auto intro: to_char_matches)
    with entry_of_monthly_data(1) [OF mem] show ?thesis by simp
  qed
  have same_month: "to_char_YYYY_MM (clicked_at c1) = to_char_YYYY_MM (clicked_at c2)
               \<longleftrightarrow> year (clicked_at c1) = year (clicked_at c2)
                   \<and> month (clicked_at c1) = month (clicked_at c2)"
    if "c1 \<in> set (clicks_of w (link_uuid lk))" "c2 \<in> set (clicks_of w (link_uuid lk))" for c1 c2
    using that valid by (intro to_char_eq_iff) simp_all
  have total: "sum_list (map snd (monthly_breakdown s)) = total_clicks s"
    by (simp add: s stats_of_link_fields sum_monthly_data)
  have order: "sorted (map fst (monthly_breakdown s))" "distinct (map fst (monthly_breakdown s))"
    by (simp_all add: s stats_of_link_fields months_of_monthly_data)
  from lk s months entries same_month total order show ?thesis
    by blast
qed

lemma keeps_rows_slow_env: "keeps_rows slow_env"
  by (simp add: keeps_rows_def slow_env_def)

lemma three_clicks_stats:
  "get_stats slow_env three_clicks_world 1 20 =
     Inr \<lparr>page = 1, limit = 20, total_links = 1,
          links = [\<lparr>stats_short_code = ''abcdef'', stats_target_url = ''https://fiverr.com/a/svc1'',
                    total_clicks = 3,
                    total_earnings = 5404319552844595 / 36028797018963968,
                    monthly_breakdown = [(''2024-01'', 1), (''2024-02'', 2)]\<rparr>]\<rparr>"
  by code_simp

lemma three_clicks_valid:
  "list_all (\<lambda>c. valid_datetime (clicked_at c)) (clicks_table three_clicks_world)"
  by code_simp

theorem monthly_breakdown_correct_witness:
  "keeps_rows slow_env
   \<and> list_all (\<lambda>c. valid_datetime (clicked_at c)) (clicks_table three_clicks_world)
   \<and> get_stats slow_env three_clicks_world 1 20 =
       Inr \<lparr>page = 1, limit = 20, total_links = 1,
            links = [\<lparr>stats_short_code = ''abcdef'', stats_target_url = ''https://fiverr.com/a/svc1'',
                      total_clicks = 3,
                      total_earnings = 5404319552844595 / 36028797018963968,
                      monthly_breakdown = [(''2024-01'', 1), (''2024-02'', 2)]\<rparr>]\<rparr>
   \<and> matches_YYYY_MM ''2024-01'' \<and> matches_YYYY_MM ''2024-02''
   \<and> sorted [''2024-01'', ''2024-02'']"
proof -
  define s where "s = \<lparr>stats_short_code = ''abcdef'', stats_target_url = ''https://fiverr.com/a/svc1'',
                      total_clicks = 3,
                      total_earnings = 5404319552844595 / 36028797018963968,
                      monthly_breakdown = [(''2024-01'', 1::nat), (''2024-02'', 2)]\<rparr>"
  have g: "get_stats slow_env three_clicks_world 1 20 =
       Inr \<lparr>page = 1, limit = 20, total_links = 1, links = [s]\<rparr>"
    unfolding s_def by (rule three_clicks_stats)
  have v: "\<forall>c \<in> set (clicks_table three_clicks_world). valid_datetime (clicked_at c)"
    using three_clicks_valid by (simp add: list_all_iff)
  have "s \<in> set (links \<lparr>page = 1, limit = 20, total_links = 1, links = [s]\<rparr>)"
    by simp
  from monthly_breakdown_correct [OF g this keeps_rows_slow_env v]
  have "(\<forall>(m, n) \<in> set (monthly_breakdown s). matches_YYYY_MM m)
        \<and> sorted (map fst (monthly_breakdown s))"
    by fastforce
  then have "matches_YYYY_MM ''2024-01'' \<and> matches_YYYY_MM ''2024-02''
   \<and> sorted [''2024-01'', ''2024-02'']"
    by (simp add: s_def)
  with keeps_rows_slow_env three_clicks_valid three_clicks_stats show ?thesis
    by blast
qed

subsection \<open>Clicks and earnings\<close>

lemma clicks_after_redirects:
  assumes "lk \<in> set (links_table w)" and "distinct (map short_code (links_table w))"
  shows "links_table (serve env w (replicate n (GetShortCode (short_code lk)))) = links_table w
    \<and> length (clicks_of (serve env w (replicate n (GetShortCode (short_code lk)))) (link_uuid lk))
        = length (clicks_of w (link_uuid lk)) + n"
  using assms
proof (induction n arbitrary: w)
  case 0
  then show ?case by simp
next
  case (Suc n)
  define w' where "w' = snd (redirect_short_link env w (short_code lk))"
  have w': "w' = w\<lparr>clicks_table := clicks_table w @
               [\<lparr>click_uuid = uuid_calls w, link_id = link_uuid lk,
                 clicked_at = utc_clock env (now_calls w)\<rparr>],
           now_calls := Suc (now_calls w), uuid_calls := Suc (uuid_calls w)\<rparr>"
    unfolding w'_def by (simp add: redirect_stored [OF Suc.prems])
  have "lk \<in> set (links_table w')" "distinct (map short_code (links_table w'))"
    using Suc.prems by (simp_all add: w')
  from Suc.IH [OF this]
  have "links_table (serve env w' (replicate n (GetShortCode (short_code lk)))) = links_table w'
    \<and> length (clicks_of (serve env w' (replicate n (GetShortCode (short_code lk)))) (link_uuid lk))
        = length (clicks_of w' (link_uuid lk)) + n" .
  moreover have "length (clicks_of w' (link_uuid lk)) = Suc (length (clicks_of w (link_uuid lk)))"
    by (simp add: w' clicks_of_def)
  moreover have "links_table w' = links_table w"
    by (simp add: w')
  ultimately show ?case
    by (simp add: w'_def)
qed

lemma earnings_per_click_value: "EARNINGS_PER_CLICK = 3602879701896397 / 72057594037927936"
  by code_simp

lemma earnings_one: "py_round (float_mul (float_of_int 1) EARNINGS_PER_CLICK) 2
  = 3602879701896397 / 72057594037927936"
  by code_simp

lemma earnings_five: "py_round (float_mul (float_of_int 5) EARNINGS_PER_CLICK) 2 = 1 / 4"
  by code_simp

lemma earnings_ten: "py_round (float_mul (float_of_int 10) EARNINGS_PER_CLICK) 2 = 1 / 2"
  by code_simp

text \<open>
  C6. For every stored link, and so for every link of a \<open>get_stats\<close> result, \<open>total_clicks\<close>
  is the number of click rows that reference the link and \<open>total_earnings\<close> is
  \<^verbatim>\<open>round(total_clicks * 0.05, 2)\<close> in binary64 arithmetic, where \<open>0.05\<close> is the float
  \<open>3602879701896397 / 2^56\<close>. Recording \<open>n\<close> clicks against a link through the redirect adds
  exactly \<open>n\<close> to its \<open>total_clicks\<close>; 1, 5 and 10 clicks earn the floats 0.05, 0.25 and 0.5.
\<close>

theorem earnings_derivation:
  "total_clicks (stats_of_link w lk)
     = length (filter (\<lambda>c. link_id c = link_uuid lk) (clicks_table w))
   \<and> total_earnings (stats_of_link w lk)
       = py_round (float_mul (float_of_int (int (total_clicks (stats_of_link w lk))))
           EARNINGS_PER_CLICK) 2
   \<and> (\<forall>r s. get_stats env w p l = Inr r \<longrightarrow> keeps_rows env \<longrightarrow> s \<in> set (links r) \<longrightarrow>
         (\<exists>k \<in> set (links_table w). s = stats_of_link w k
            \<and> total_clicks s = length (filter (\<lambda>c. link_id c = link_uuid k) (clicks_table w))
            \<and> total_earnings s
                = py_round (float_mul (float_of_int (int (total_clicks s))) EARNINGS_PER_CLICK) 2))
   \<and> (lk \<in> set (links_table w) \<longrightarrow> distinct (map short_code (links_table w)) \<longrightarrow>
         total_clicks (stats_of_link (serve env w (replicate n (GetShortCode (short_code lk)))) lk)
           = total_clicks (stats_of_link w lk) + n)
   \<and> EARNINGS_PER_CLICK = 3602879701896397 / 72057594037927936
   \<and> (total_clicks (stats_of_link w lk) = 1 \<longrightarrow>
         total_earnings (stats_of_link w lk) = 3602879701896397 / 72057594037927936)
   \<and> (total_clicks (stats_of_link w lk) = 5 \<longrightarrow> total_earnings (stats_of_link w lk) = 1 / 4)
   \<and> (total_clicks (stats_of_link w lk) = 10 \<longrightarrow> total_earnings (stats_of_link w lk) = 1 / 2)"
proof -
  have count: "total_clicks (stats_of_link w k)
     = length (filter (\<lambda>c. link_id c = link_uuid k) (clicks_table w))" for k
    by (simp add: stats_of_link_fields clicks_of_def)
  have earn: "total_earnings (stats_of_link w k)
       = py_round (float_mul (float_of_int (int (total_clicks (stats_of_link w k))))
           EARNINGS_PER_CLICK) 2" for k
    by (simp add: stats_of_link_fields)
  have listed: "\<exists>k \<in> set (links_table w). s = stats_of_link w k
            \<and> total_clicks s = length (filter (\<lambda>c. link_id c = link_uuid k) (clicks_table w))
            \<and> total_earnings s
                = py_round (float_mul (float_of_int (int (total_clicks s))) EARNINGS_PER_CLICK) 2"
    if "get_stats env w p l = Inr r" "keeps_rows env" "s \<in> set (links r)" for r s
    using page_of_stored_links [OF that(1) that(3) that(2)] count earn by metis
  have recorded: "total_clicks (stats_of_link (serve env w (replicate n (GetShortCode (short_code lk)))) lk)
           = total_clicks (stats_of_link w lk) + n"
    if "lk \<in> set (links_table w)" "distinct (map short_code (links_table w))"
    using clicks_after_redirects [OF that, of env n] by (simp add: stats_of_link_fields)
  have one: "total_earnings (stats_of_link w lk) = 3602879701896397 / 72057594037927936"
    if "total_clicks (stats_of_link w lk) = 1"
    using earn [of lk] earnings_one by (simp add: that)
  have five: "total_earnings (stats_of_link w lk) = 1 / 4"
    if "total_clicks (stats_of_link w lk) = 5"
    using earn [of lk] earnings_five by (simp add: that)
  have ten: "total_earnings (stats_of_link w lk) = 1 / 2"
    if "total_clicks (stats_of_link w lk) = 10"
    using earn [of lk] earnings_ten by (simp add: that)
  from count [of lk] earn [of lk] listed recorded earnings_per_click_value one five ten
  show ?thesis by blast
qed

lemma ten_clicks_start:
  "sample_link \<in> set (links_table sample_world)"
  "distinct (map short_code (links_table sample_world))"
  "short_code sample_link = ''abcdef''"
  "total_clicks (stats_of_link sample_world sample_link) = 0"
  by (simp_all add: sample_world_def sample_link_def stats_of_link_def clicks_of_def)

theorem earnings_derivation_witness:
  "sample_link \<in> set (links_table sample_world)
   \<and> distinct (map short_code (links_table sample_world))
   \<and> total_clicks (stats_of_link ten_clicks_world sample_link) = 10
   \<and> total_earnings (stats_of_link ten_clicks_world sample_link) = 1 / 2"
proof -
  from earnings_derivation [of sample_world sample_link sample_env 1 20 10] ten_clicks_start
  have n: "total_clicks (stats_of_link ten_clicks_world sample_link) = 10"
    by (simp add: ten_clicks_world_def)
  with earnings_derivation [of ten_clicks_world sample_link sample_env 1 20 0]
  have "total_earnings (stats_of_link ten_clicks_world sample_link) = 1 / 2"
    by blast
  with n ten_clicks_start show ?thesis by blast
qed

end
